theory Spec2Isabelle
  imports Main
begin

section \<open>Strings\<close>

text \<open>
  A Python \<open>str\<close> is modelled as a \<open>string\<close>; a \<open>char\<close> stands for a code point below
  256. The text of a file is the text Python's text layer delivers (after universal-newline
  translation), so the line feed is the only line terminator.
\<close>

definition newline :: char where
  "newline = CHR 0x0A"

text \<open>\<open>str.isspace\<close> on the code points below 256.\<close>

definition isspace :: "char \<Rightarrow> bool" where
  "isspace c = (of_char c \<in> set [9, 10, 11, 12, 13, 28, 29, 30, 31, 32, 133, 160 :: nat])"

text \<open>\<open>str.strip()\<close> without argument: leading and trailing white space removed.\<close>

definition lstrip :: "string \<Rightarrow> string" where
  "lstrip s = dropWhile isspace s"

definition rstrip :: "string \<Rightarrow> string" where
  "rstrip s = rev (dropWhile isspace (rev s))"

definition strip :: "string \<Rightarrow> string" where
  "strip s = rstrip (lstrip s)"

text \<open>\<open>str.lower()\<close> on the code points below 256: A-Z and the Latin-1 capitals.\<close>

definition lower_char :: "char \<Rightarrow> char" where
  "lower_char c =
     (let n = (of_char c :: nat)
      in if (65 \<le> n \<and> n \<le> 90) \<or> (192 \<le> n \<and> n \<le> 222 \<and> n \<noteq> 215)
         then char_of (n + 32) else c)"

definition lower :: "string \<Rightarrow> string" where
  "lower s = map lower_char s"

text \<open>\<open>s.startswith('#')\<close>.\<close>

definition startswith_hash :: "string \<Rightarrow> bool" where
  "startswith_hash s = (case s of [] \<Rightarrow> False | c # _ \<Rightarrow> c = CHR ''#'')"

text \<open>\<open>s.split('=', 1)\<close> for a string that contains \<open>=\<close>: the part before the first
  \<open>=\<close> and the part after it.\<close>

definition split_eq :: "string \<Rightarrow> string \<times> string" where
  "split_eq s = (takeWhile (\<lambda>c. c \<noteq> CHR ''='') s, tl (dropWhile (\<lambda>c. c \<noteq> CHR ''='') s))"

text \<open>The lines of a text, each with its line feed (\<open>f.readlines()\<close>, \<open>for line in f\<close>);
  the last line has none when the text does not end with one.\<close>

fun readlines :: "string \<Rightarrow> string list" where
  "readlines [] = []"
| "readlines (c # cs) =
     (if c = newline then [c] # readlines cs
      else (case readlines cs of [] \<Rightarrow> [[c]] | l # ls \<Rightarrow> (c # l) # ls))"

text \<open>\<open>f.writelines(lines)\<close> writes the strings one after the other, adding nothing.\<close>

definition writelines :: "string list \<Rightarrow> string" where
  "writelines ls = concat ls"

section \<open>The configuration store\<close>

text \<open>The kinds of widget of \<open>_define_env_vars\<close> (the descriptions are labels only).\<close>

datatype wtype = Entry | Bool | Combo "string list"

definition env_definitions :: "(string \<times> wtype) list" where
  "env_definitions =
     [(''API_ENDPOINT'', Entry),
      (''AUTH_TOKEN'', Entry),
      (''SKIP_AUTH_TOKEN'', Bool),
      (''BACKUP_TOKEN'', Entry),
      (''LISTEN_PORT'', Entry),
      (''DEBUG_LOGGING'', Bool),
      (''THINKING_PROCESSING'', Combo [''think'', ''strip'', ''raw'']),
      (''ANONYMOUS_MODE'', Bool),
      (''TOOL_SUPPORT'', Bool),
      (''SCAN_LIMIT'', Entry)]"

text \<open>A Tk variable: \<open>tk.BooleanVar\<close> or \<open>tk.StringVar\<close>, with its value.\<close>

datatype var = BooleanVar bool | StringVar string

text \<open>\<open>_populate_settings_widgets\<close>: one fresh variable for each definition, in
  definition order (a dict keeps insertion order).\<close>

definition new_var :: "wtype \<Rightarrow> var" where
  "new_var t = (if t = Bool then BooleanVar False else StringVar [])"

definition populate_settings_widgets :: "(string \<times> var) list" where
  "populate_settings_widgets = map (\<lambda>(key, t). (key, new_var t)) env_definitions"

text \<open>The messages of \<open>log_message\<close>, one constructor for each message text of the source
  (the number of a process stands for its \<open>Popen\<close> object).\<close>

datatype msg =
    MsgLoaded
  | MsgEnvNotFound
  | MsgLoadError
  | MsgSaved
  | MsgRestartHint
  | MsgSaveError
  | MsgStarting
  | MsgStarted nat
  | MsgServerLine string
  | MsgStoppedCode int
  | MsgStopping
  | MsgStopSucceeded
  | MsgStopTimeout
  | MsgKilled

text \<open>What the application does, in order: the messages appended to the log widget and
  the calls on the child process, on threads and on the main window.\<close>

datatype event =
    LogMessage msg
  | Popen
  | ThreadStart
  | Terminate nat
  | WaitTimeout nat nat
  | Kill nat
  | StdoutClose nat
  | Wait nat
  | AfterCancel
  | TrayDestroy
  | RootDestroy

text \<open>The fields of \<open>ApiServerGUI\<close> that the operations below read and write, and the
  trace of what has been done.\<close>

record gui =
  server_process :: "nat option"
  is_server_running :: bool
  update_id :: "nat option"
  config_vars :: "(string \<times> var) list"
  trace :: "event list"

definition emit :: "event \<Rightarrow> gui \<Rightarrow> gui" where
  "emit e g = g\<lparr>trace := trace g @ [e]\<rparr>"

definition log_message :: "msg \<Rightarrow> gui \<Rightarrow> gui" where
  "log_message m g = emit (LogMessage m) g"

text \<open>The content of the log widget.\<close>

fun messages :: "event list \<Rightarrow> msg list" where
  "messages [] = []"
| "messages (LogMessage m # es) = m # messages es"
| "messages (_ # es) = messages es"

text \<open>What opening and reading the \<open>.env\<close> file gives: \<open>FileNotFoundError\<close>, the text, or
  another exception after the given text has been delivered.\<close>

datatype env_file = NotFound | Readable string | ReadError string

text \<open>Lines 274-277: the key and value of a line, if it is an assignment.\<close>

definition is_assignment :: "string \<Rightarrow> bool" where
  "is_assignment stripped_line =
     (stripped_line \<noteq> [] \<and> \<not> startswith_hash stripped_line \<and> CHR ''='' \<in> set stripped_line)"

definition parse_line :: "string \<Rightarrow> (string \<times> string) option" where
  "parse_line line =
     (let l = strip line
      in if is_assignment l
         then (case split_eq l of (key, v) \<Rightarrow> Some (strip key, strip v))
         else None)"

definition read_values :: "string list \<Rightarrow> (string \<rightharpoonup> string)" where
  "read_values ls =
     foldl (\<lambda>current_values line.
              case parse_line line of
                None \<Rightarrow> current_values
              | Some (key, v) \<Rightarrow> current_values(key \<mapsto> v)) Map.empty ls"

text \<open>Lines 285-290: \<open>current_values.get(key, '')\<close> sets each variable.\<close>

definition set_var :: "(string \<rightharpoonup> string) \<Rightarrow> string \<times> var \<Rightarrow> string \<times> var" where
  "set_var current_values kv =
     (case kv of (key, var) \<Rightarrow>
        (let v = (case current_values key of None \<Rightarrow> [] | Some v \<Rightarrow> v)
         in case var of
              BooleanVar _ \<Rightarrow> (key, BooleanVar (lower v = ''true''))
            | StringVar _ \<Rightarrow> (key, StringVar v)))"

text \<open>\<open>load_settings\<close> (lines 267-290). No exception leaves it.\<close>

definition load_settings :: "env_file \<Rightarrow> gui \<Rightarrow> gui" where
  "load_settings f g =
     (let (current_values, m) =
            (case f of
               Readable text \<Rightarrow> (read_values (readlines text), MsgLoaded)
             | NotFound \<Rightarrow> (Map.empty, MsgEnvNotFound)
             | ReadError text \<Rightarrow> (read_values (readlines text), MsgLoadError));
          g1 = log_message m g
      in g1\<lparr>config_vars := map (set_var current_values) (config_vars g1)\<rparr>)"

text \<open>Lines 313-317 and 327-331: the text written for a variable.\<close>

definition var_text :: "var \<Rightarrow> string" where
  "var_text var = (case var of BooleanVar b \<Rightarrow> (if b then ''true'' else ''false'') | StringVar s \<Rightarrow> s)"

definition key_line :: "string \<Rightarrow> var \<Rightarrow> string" where
  "key_line key var = key @ ''='' @ var_text var @ [newline]"

text \<open>Lines 307-322: the loop over the lines of the old file, on \<open>new_lines\<close> and
  \<open>processed_keys\<close>.\<close>

fun update_existing ::
  "(string \<times> var) list \<Rightarrow> string list \<Rightarrow> string list \<times> string set \<Rightarrow> string list \<times> string set" where
  "update_existing cv [] acc = acc"
| "update_existing cv (line # ls) (new_lines, processed_keys) =
     (let stripped_line = strip line
      in if is_assignment stripped_line
         then (let key = strip (fst (split_eq stripped_line))
               in case map_of cv key of
                    Some var \<Rightarrow>
                      update_existing cv ls (new_lines @ [key_line key var], insert key processed_keys)
                  | None \<Rightarrow> update_existing cv ls (new_lines @ [line], processed_keys))
         else update_existing cv ls (new_lines @ [line], processed_keys))"

text \<open>Lines 325-331: the loop over \<open>config_vars\<close> that adds the keys not yet written.\<close>

fun add_new_keys :: "(string \<times> var) list \<Rightarrow> string set \<Rightarrow> string list \<Rightarrow> string list" where
  "add_new_keys [] processed_keys new_lines = new_lines"
| "add_new_keys ((key, var) # cv) processed_keys new_lines =
     (if key \<notin> processed_keys
      then add_new_keys cv processed_keys (new_lines @ [key_line key var])
      else add_new_keys cv processed_keys new_lines)"

definition save_lines :: "(string \<times> var) list \<Rightarrow> string list \<Rightarrow> string list" where
  "save_lines cv ls =
     (case update_existing cv ls ([], {}) of
        (new_lines, processed_keys) \<Rightarrow> add_new_keys cv processed_keys new_lines)"

text \<open>\<open>save_settings\<close> (lines 292-340): the file afterwards and the new state.
  \<open>writable\<close> tells whether opening the file for writing succeeds; every exception is
  caught and logged.\<close>

definition save_settings :: "bool \<Rightarrow> env_file \<Rightarrow> gui \<Rightarrow> env_file \<times> gui" where
  "save_settings writable f g =
     (case (case f of NotFound \<Rightarrow> Some [] | Readable text \<Rightarrow> Some (readlines text)
                   | ReadError _ \<Rightarrow> None) of
        None \<Rightarrow> (f, log_message MsgSaveError g)
      | Some ls \<Rightarrow>
          if writable
          then (Readable (writelines (save_lines (config_vars g) ls)),
                (let g1 = log_message MsgSaved g
                 in if is_server_running g1 then log_message MsgRestartHint g1 else g1))
          else (f, log_message MsgSaveError g))"

text \<open>\<open>__init__\<close> (lines 114-123): the state once the widgets exist and the status timer
  is armed, before the settings are loaded.\<close>

definition created_gui :: gui where
  "created_gui =
     \<lparr>server_process = None, is_server_running = False, update_id = Some 0,
      config_vars = populate_settings_widgets, trace = []\<rparr>"

subsection \<open>Notions used to state the properties of the configuration store\<close>

text \<open>The key a line of the file assigns, by the test of lines 274-276 and 308-310.\<close>

definition line_key :: "string \<Rightarrow> string option" where
  "line_key line =
     (let stripped_line = strip line
      in if is_assignment stripped_line then Some (strip (fst (split_eq stripped_line))) else None)"

definition assigned_keys :: "string list \<Rightarrow> string set" where
  "assigned_keys ls = set (List.map_filter line_key ls)"

text \<open>The value a variable has when nothing was read for it.\<close>

definition default_of :: "var \<Rightarrow> var" where
  "default_of var = (case var of BooleanVar _ \<Rightarrow> BooleanVar False | StringVar _ \<Rightarrow> StringVar [])"

text \<open>A line of the old file as \<open>save_settings\<close> writes it back.\<close>

definition rewrite_line :: "(string \<times> var) list \<Rightarrow> string \<Rightarrow> string" where
  "rewrite_line cv line =
     (case line_key line of
        Some key \<Rightarrow> (case map_of cv key of Some var \<Rightarrow> key_line key var | None \<Rightarrow> line)
      | None \<Rightarrow> line)"




text \<open>A text given by its lines, a line feed after each.\<close>

definition text_of :: "string list \<Rightarrow> string" where
  "text_of ls = concat (map (\<lambda>l. l @ [newline]) ls)"

section \<open>The server process: the operations run alone\<close>

text \<open>
  Each operation is first modelled as it runs when no other thread interferes. What the
  operating system answers is an argument: a number stands for the \<open>Popen\<close> object of a
  child.
\<close>

text \<open>The exceptions that can leave an operation.\<close>

datatype error = OSError | AttributeError | ValueError

text \<open>
  \<open>start_server\<close> (lines 354-376). \<open>popen\<close> is what \<open>subprocess.Popen\<close> does: it raises or
  returns a child. An exception of \<open>Popen\<close> is not caught: it leaves \<open>start_server\<close> before
  lines 374-376.
\<close>

definition start_server :: "error + nat \<Rightarrow> gui \<Rightarrow> (error + unit) \<times> gui" where
  "start_server popen g =
     (if \<not> is_server_running g
      then (let g1 = emit Popen (log_message MsgStarting g)
            in case popen of
                 Inl e \<Rightarrow> (Inl e, g1)
               | Inr p \<Rightarrow>
                   (let g2 = g1\<lparr>server_process := Some p\<rparr>;
                        g3 = g2\<lparr>is_server_running := True\<rparr>;
                        g4 = log_message (MsgStarted p) g3
                    in (Inr (), emit ThreadStart g4)))
      else (Inr (), g))"

text \<open>
  \<open>stop_server\<close> (lines 388-401). \<open>waited\<close> is what \<open>wait(timeout=5)\<close> does: it returns the
  exit code, or raises \<open>TimeoutExpired\<close> (\<open>None\<close>), which is caught.
\<close>

definition stop_server :: "int option \<Rightarrow> gui \<Rightarrow> gui" where
  "stop_server waited g =
     (case (is_server_running g, server_process g) of
        (True, Some p) \<Rightarrow>
          (let g1 = log_message MsgStopping g;
               g2 = emit (Terminate p) g1;
               g3 = emit (WaitTimeout p 5) g2;
               g4 = (case waited of
                       Some rc \<Rightarrow> log_message MsgStopSucceeded g3
                     | None \<Rightarrow>
                         log_message MsgKilled (emit (Kill p) (log_message MsgStopTimeout g3)));
               g5 = g4\<lparr>is_server_running := False\<rparr>
           in g5\<lparr>server_process := None\<rparr>)
      | _ \<Rightarrow> g)"

text \<open>
  \<open>read_server_output\<close> (lines 378-386), the body of the reader thread. \<open>out\<close> is the text
  the child writes to its output before the end of the stream, \<open>rc\<close> the exit code that
  \<open>wait()\<close> returns. \<open>readline\<close> gives the lines of \<open>out\<close> one by one and then the empty
  string, where the loop ends.
\<close>

definition read_server_output :: "string \<Rightarrow> int \<Rightarrow> gui \<Rightarrow> gui" where
  "read_server_output out rc g =
     (case server_process g of
        None \<Rightarrow> g
      | Some p \<Rightarrow>
          (let g1 = foldl (\<lambda>g line. log_message (MsgServerLine (strip line)) g) g (readlines out);
               g2 = emit (StdoutClose p) g1;
               g3 = emit (Wait p) g2;
               g4 = g3\<lparr>is_server_running := False\<rparr>
           in log_message (MsgStoppedCode rc) g4))"

text \<open>\<open>quit_app\<close> (lines 428-438), the only operation that ends the application.\<close>

definition quit_app :: "int option \<Rightarrow> gui \<Rightarrow> gui" where
  "quit_app waited g =
     (let g1 = (if update_id g \<noteq> None then (emit AfterCancel g)\<lparr>update_id := None\<rparr> else g);
          g2 = stop_server waited g1;
          g3 = emit TrayDestroy g2
      in emit RootDestroy g3)"

text \<open>The events an operation added to the trace.\<close>

definition added :: "gui \<Rightarrow> gui \<Rightarrow> event list" where
  "added g g' = drop (length (trace g)) (trace g')"


text \<open>A state in which child \<open>p\<close> is tracked as running.\<close>

definition running_gui :: "nat \<Rightarrow> gui" where
  "running_gui p = created_gui\<lparr>server_process := Some p, is_server_running := True\<rparr>"

section \<open>The server process: operations that take effect one after the other\<close>






section \<open>The server process: threads that interleave\<close>

text \<open>
  \<open>start_server\<close> and \<open>stop_server\<close> run on the thread that calls them (the Tk main loop
  for the buttons, the thread of the tray icon for \<open>quit_app\<close>), \<open>read_server_output\<close> on a
  thread of its own; the source has no lock. A thread is modelled by the line it is about
  to execute, and a step executes one statement, with at most one read or write of
  \<open>is_server_running\<close> or \<open>server_process\<close>.
\<close>

text \<open>A child: its exit code once it has ended, the lines it has written that are not
  read yet, and whether its output stream has been closed by the application.\<close>

record proc =
  exit_code :: "int option"
  pipe :: "string list"
  stdout_closed :: bool

datatype start_pc = Start356 | Start357 | Start366 | Start374 | Start375 | Start376
  | StartDone | StartRaised error

datatype stop_pc = Stop390 | Stop390_handle | Stop391 | Stop392 | Stop394 | Stop394_wait nat
  | Stop395 | Stop397 | Stop398 | Stop399 | Stop400 | Stop401
  | StopDone | StopRaised error

datatype read_pc = Read380 | Read381 | Read381_readline nat | Read382 nat string
  | Read383 | Read384 | Read384_wait nat | Read385 int | Read386 int
  | ReadReturned | ReadDone | ReadRaised error

datatype thread = Starter start_pc | Stopper stop_pc | Reader read_pc

record world =
  app :: gui
  procs :: "proc list"
  threads :: "thread list"


definition exited :: "world \<Rightarrow> nat \<Rightarrow> int option" where
  "exited w p = (if p < length (procs w) then exit_code (procs w ! p) else None)"

definition on_app :: "(gui \<Rightarrow> gui) \<Rightarrow> world \<Rightarrow> world" where
  "on_app f w = w\<lparr>app := f (app w)\<rparr>"

text \<open>
  One step of a thread in \<open>start_server\<close>. \<open>ok\<close> tells whether \<open>Popen\<close> succeeds. The new
  child gets the next number. Line 375 reads \<open>self.server_process.pid\<close>.
\<close>

fun start_step :: "bool \<Rightarrow> start_pc \<Rightarrow> world \<Rightarrow> (start_pc \<times> world) option" where
  "start_step ok Start356 w =
     Some (if \<not> is_server_running (app w) then Start357 else StartDone, w)"
| "start_step ok Start357 w = Some (Start366, on_app (log_message MsgStarting) w)"
| "start_step ok Start366 w =
     (let w1 = on_app (emit Popen) w
      in if ok
         then Some (Start374,
                (on_app (\<lambda>g. g\<lparr>server_process := Some (length (procs w))\<rparr>) w1)
                  \<lparr>procs := procs w @ [\<lparr>exit_code = None, pipe = [], stdout_closed = False\<rparr>]\<rparr>)
         else Some (StartRaised OSError, w1))"
| "start_step ok Start374 w = Some (Start375, on_app (\<lambda>g. g\<lparr>is_server_running := True\<rparr>) w)"
| "start_step ok Start375 w =
     (case server_process (app w) of
        None \<Rightarrow> Some (StartRaised AttributeError, w)
      | Some p \<Rightarrow> Some (Start376, on_app (log_message (MsgStarted p)) w))"
| "start_step ok Start376 w =
     Some (StartDone, (on_app (emit ThreadStart) w)\<lparr>threads := threads w @ [Reader Read380]\<rparr>)"
| "start_step ok StartDone w = None"
| "start_step ok (StartRaised e) w = None"

text \<open>
  One step of a thread in \<open>stop_server\<close>. Lines 392, 394 and 398 read
  \<open>self.server_process\<close> again, and fail with \<open>AttributeError\<close> when it is \<open>None\<close>; the
  handler of line 396 catches \<open>TimeoutExpired\<close> only. The wait of line 394 goes on when the
  child has ended; while the child runs it can time out (\<open>timeout\<close>) and is blocked
  otherwise. A killed child has ended, with code -9.
\<close>

fun stop_step :: "bool \<Rightarrow> stop_pc \<Rightarrow> world \<Rightarrow> (stop_pc \<times> world) option" where
  "stop_step timeout Stop390 w =
     Some (if is_server_running (app w) then Stop390_handle else StopDone, w)"
| "stop_step timeout Stop390_handle w =
     Some (if server_process (app w) \<noteq> None then Stop391 else StopDone, w)"
| "stop_step timeout Stop391 w = Some (Stop392, on_app (log_message MsgStopping) w)"
| "stop_step timeout Stop392 w =
     (case server_process (app w) of
        None \<Rightarrow> Some (StopRaised AttributeError, w)
      | Some p \<Rightarrow> Some (Stop394, on_app (emit (Terminate p)) w))"
| "stop_step timeout Stop394 w =
     (case server_process (app w) of
        None \<Rightarrow> Some (StopRaised AttributeError, w)
      | Some p \<Rightarrow> Some (Stop394_wait p, on_app (emit (WaitTimeout p 5)) w))"
| "stop_step timeout (Stop394_wait p) w =
     (if exited w p \<noteq> None then Some (Stop395, w)
      else if timeout then Some (Stop397, w)
      else None)"
| "stop_step timeout Stop395 w = Some (Stop400, on_app (log_message MsgStopSucceeded) w)"
| "stop_step timeout Stop397 w = Some (Stop398, on_app (log_message MsgStopTimeout) w)"
| "stop_step timeout Stop398 w =
     (case server_process (app w) of
        None \<Rightarrow> Some (StopRaised AttributeError, w)
      | Some p \<Rightarrow>
          Some (Stop399,
            (on_app (emit (Kill p)) w)
              \<lparr>procs := (if exited w p = None \<and> p < length (procs w)
                          then (procs w)[p := (procs w ! p)\<lparr>exit_code := Some (- 9)\<rparr>]
                          else procs w)\<rparr>))"
| "stop_step timeout Stop399 w = Some (Stop400, on_app (log_message MsgKilled) w)"
| "stop_step timeout Stop400 w = Some (Stop401, on_app (\<lambda>g. g\<lparr>is_server_running := False\<rparr>) w)"
| "stop_step timeout Stop401 w = Some (StopDone, on_app (\<lambda>g. g\<lparr>server_process := None\<rparr>) w)"
| "stop_step timeout StopDone w = None"
| "stop_step timeout (StopRaised e) w = None"

text \<open>
  One step of a reader thread. Line 381 binds \<open>readline\<close> of the stream of the child that
  \<open>server_process\<close> holds then; \<open>readline\<close> gives the next line, or the end of the stream
  once the child has ended and all its lines are read, and is blocked otherwise; on a
  closed stream it fails. Lines 383 and 384 read \<open>self.server_process\<close> again. The wait
  of line 384 is blocked until the child has ended.
\<close>

fun read_step :: "read_pc \<Rightarrow> world \<Rightarrow> (read_pc \<times> world) option" where
  "read_step Read380 w =
     Some (if server_process (app w) \<noteq> None then Read381 else ReadReturned, w)"
| "read_step Read381 w =
     (case server_process (app w) of
        None \<Rightarrow> Some (ReadRaised AttributeError, w)
      | Some p \<Rightarrow> Some (Read381_readline p, w))"
| "read_step (Read381_readline p) w =
     (if p < length (procs w)
      then (if stdout_closed (procs w ! p) then Some (ReadRaised ValueError, w)
            else (case pipe (procs w ! p) of
                    line # rest \<Rightarrow>
                      Some (Read382 p line, w\<lparr>procs := (procs w)[p := (procs w ! p)\<lparr>pipe := rest\<rparr>]\<rparr>)
                  | [] \<Rightarrow> if exited w p \<noteq> None then Some (Read383, w) else None))
      else None)"
| "read_step (Read382 p line) w =
     Some (Read381_readline p, on_app (log_message (MsgServerLine (strip line))) w)"
| "read_step Read383 w =
     (case server_process (app w) of
        None \<Rightarrow> Some (ReadRaised AttributeError, w)
      | Some q \<Rightarrow>
          Some (Read384,
            (on_app (emit (StdoutClose q)) w)
              \<lparr>procs := (if q < length (procs w)
                          then (procs w)[q := (procs w ! q)\<lparr>stdout_closed := True\<rparr>]
                          else procs w)\<rparr>))"
| "read_step Read384 w =
     (case server_process (app w) of
        None \<Rightarrow> Some (ReadRaised AttributeError, w)
      | Some q \<Rightarrow> Some (Read384_wait q, on_app (emit (Wait q)) w))"
| "read_step (Read384_wait q) w =
     (case exited w q of None \<Rightarrow> None | Some rc \<Rightarrow> Some (Read385 rc, w))"
| "read_step (Read385 rc) w = Some (Read386 rc, on_app (\<lambda>g. g\<lparr>is_server_running := False\<rparr>) w)"
| "read_step (Read386 rc) w = Some (ReadDone, on_app (log_message (MsgStoppedCode rc)) w)"
| "read_step ReadReturned w = None"
| "read_step ReadDone w = None"
| "read_step (ReadRaised e) w = None"

text \<open>
  What can happen next: a thread calls \<open>start_server\<close> or \<open>stop_server\<close>, thread \<open>i\<close>
  executes its next statement (the flag is \<open>ok\<close> or \<open>timeout\<close> above), a running child
  writes a line, a running child ends with an exit code. \<open>step\<close> gives \<open>None\<close> when that
  cannot happen in the state.
\<close>

datatype action = CallStart | CallStop | Run nat bool | ChildWrites nat string | ChildExits nat int

definition set_thread :: "nat \<Rightarrow> thread \<Rightarrow> world \<Rightarrow> world" where
  "set_thread i t w = w\<lparr>threads := (threads w)[i := t]\<rparr>"

fun step :: "action \<Rightarrow> world \<Rightarrow> world option" where
  "step CallStart w = Some (w\<lparr>threads := threads w @ [Starter Start356]\<rparr>)"
| "step CallStop w = Some (w\<lparr>threads := threads w @ [Stopper Stop390]\<rparr>)"
| "step (Run i b) w =
     (if i < length (threads w)
      then (case threads w ! i of
              Starter pc \<Rightarrow>
                (case start_step b pc w of
                   None \<Rightarrow> None
                 | Some (pc', w') \<Rightarrow> Some (set_thread i (Starter pc') w'))
            | Stopper pc \<Rightarrow>
                (case stop_step b pc w of
                   None \<Rightarrow> None
                 | Some (pc', w') \<Rightarrow> Some (set_thread i (Stopper pc') w'))
            | Reader pc \<Rightarrow>
                (case read_step pc w of
                   None \<Rightarrow> None
                 | Some (pc', w') \<Rightarrow> Some (set_thread i (Reader pc') w')))
      else None)"
| "step (ChildWrites p line) w =
     (if p < length (procs w) \<and> exited w p = None
      then Some (w\<lparr>procs := (procs w)[p := (procs w ! p)\<lparr>pipe := pipe (procs w ! p) @ [line]\<rparr>]\<rparr>)
      else None)"
| "step (ChildExits p rc) w =
     (if p < length (procs w) \<and> exited w p = None
      then Some (w\<lparr>procs := (procs w)[p := (procs w ! p)\<lparr>exit_code := Some rc\<rparr>]\<rparr>)
      else None)"

fun run :: "action list \<Rightarrow> world \<Rightarrow> world option" where
  "run [] w = Some w"
| "run (a # as) w = (case step a w of None \<Rightarrow> None | Some w' \<Rightarrow> run as w')"

text \<open>Running statement after statement of thread \<open>i\<close>, \<open>n\<close> times.\<close>

definition runs :: "nat \<Rightarrow> nat \<Rightarrow> bool \<Rightarrow> action list" where
  "runs n i b = replicate n (Run i b)"




fun is_reader :: "thread \<Rightarrow> nat" where
  "is_reader (Reader pc) = 1"
| "is_reader t = 0"








fun written :: "action list \<Rightarrow> string list" where
  "written [] = []"
| "written (ChildWrites p l # as) = l # written as"
| "written (a # as) = written as"







section \<open>Properties of the configuration store\<close>

lemma assigned_keys_iff: "key \<in> assigned_keys ls \<longleftrightarrow> (\<exists>line \<in> set ls. line_key line = Some key)"
  by (force simp: assigned_keys_def List.map_filter_def)

lemma assigned_keys_Cons:
  "assigned_keys (line # ls) =
     (case line_key line of None \<Rightarrow> {} | Some key \<Rightarrow> {key}) \<union> assigned_keys ls"
  by (auto simp: assigned_keys_iff split: option.splits)

lemma parse_line_key: "map_option fst (parse_line line) = line_key line"
  by (simp add: parse_line_def line_key_def Let_def split: prod.splits)

lemma read_values_foldl_None:
  "foldl (\<lambda>current_values line.
              case parse_line line of
                None \<Rightarrow> current_values
              | Some (key, v) \<Rightarrow> current_values(key \<mapsto> v)) m ls k = None
   \<longleftrightarrow> m k = None \<and> k \<notin> assigned_keys ls"
proof (induction ls arbitrary: m)
  case Nil
  then show ?case by (simp add: assigned_keys_def List.map_filter_def)
next
  case (Cons line ls)
  show ?case
  proof (cases "parse_line line")
    case None
    then have "line_key line = None" using parse_line_key [of line] by simp
    with None Cons show ?thesis by (simp add: assigned_keys_Cons)
  next
    case (Some kv)
    obtain key v where kv: "kv = (key, v)" by (cases kv)
    with Some have "line_key line = Some key" using parse_line_key [of line] by simp
    with Some kv Cons show ?thesis by (auto simp: assigned_keys_Cons)
  qed
qed

lemma read_values_None: "read_values ls k = None \<longleftrightarrow> k \<notin> assigned_keys ls"
  by (simp add: read_values_def read_values_foldl_None)

lemma map_of_set_var:
  "map_of (map (set_var m) cv) k = map_option (\<lambda>var. snd (set_var m (k, var))) (map_of cv k)"
  by (induction cv) (auto simp: set_var_def Let_def split: var.splits)

lemma config_vars_load:
  "config_vars (load_settings f g) =
     map (set_var (case f of NotFound \<Rightarrow> Map.empty | Readable t \<Rightarrow> read_values (readlines t)
                    | ReadError t \<Rightarrow> read_values (readlines t))) (config_vars g)"
  by (cases f) (simp_all add: load_settings_def log_message_def emit_def)

lemma trace_load:
  "trace (load_settings f g) =
     trace g @ [LogMessage (case f of NotFound \<Rightarrow> MsgEnvNotFound | Readable t \<Rightarrow> MsgLoaded
                    | ReadError t \<Rightarrow> MsgLoadError)]"
  by (cases f) (simp_all add: load_settings_def log_message_def emit_def)

lemma update_existing_eq:
  "update_existing cv ls (nl, pk) =
     (nl @ map (rewrite_line cv) ls, pk \<union> (assigned_keys ls \<inter> dom (map_of cv)))"
proof (induction ls arbitrary: nl pk)
  case Nil
  then show ?case by (simp add: assigned_keys_def List.map_filter_def)
next
  case (Cons line ls)
  show ?case
    by (auto simp: Cons assigned_keys_Cons Let_def line_key_def rewrite_line_def
        split: option.splits)
qed

lemma add_new_keys_eq:
  "add_new_keys cv pk nl =
     nl @ map (\<lambda>(key, var). key_line key var) (filter (\<lambda>(key, var). key \<notin> pk) cv)"
  by (induction cv pk nl rule: add_new_keys.induct) auto

lemma save_lines_eq:
  "save_lines cv ls =
     map (rewrite_line cv) ls
     @ map (\<lambda>(key, var). key_line key var) (filter (\<lambda>(key, var). key \<notin> assigned_keys ls) cv)"
proof -
  have "filter (\<lambda>(key, var). key \<notin> {} \<union> (assigned_keys ls \<inter> dom (map_of cv))) cv
      = filter (\<lambda>(key, var). key \<notin> assigned_keys ls) cv"
    by (rule filter_cong) (auto simp: dom_map_of_conv_image_fst intro: rev_image_eqI)
  then show ?thesis
    by (simp add: save_lines_def update_existing_eq add_new_keys_eq)
qed

text \<open>
  C10. Loading is not an error when the file does not exist or when a key is not assigned
  in it: \<open>load_settings\<close> returns a state in every case; for a missing file it logs the
  warning message and nothing else, and a variable whose key the file does not assign
  (or whose file is missing) is set to \<open>False\<close> when it is a \<open>BooleanVar\<close> and to the
  empty string when it is a \<open>StringVar\<close>.
\<close>

theorem load_settings_absent_defaults:
  "trace (load_settings NotFound g) = trace g @ [LogMessage MsgEnvNotFound] \<and>
   ((f = NotFound \<or> (\<exists>t. f = Readable t \<and> k \<notin> assigned_keys (readlines t))) \<longrightarrow>
    map_of (config_vars g) k = Some var \<longrightarrow>
    map_of (config_vars (load_settings f g)) k = Some (default_of var))"
proof -
  have "map_of (config_vars (load_settings f g)) k = Some (default_of var)"
    if f: "f = NotFound \<or> (\<exists>t. f = Readable t \<and> k \<notin> assigned_keys (readlines t))"
      and k: "map_of (config_vars g) k = Some var"
  proof -
    from f have "(case f of NotFound \<Rightarrow> Map.empty | Readable t \<Rightarrow> read_values (readlines t)
                    | ReadError t \<Rightarrow> read_values (readlines t)) k = None"
      by (auto simp: read_values_None)
    with k show ?thesis
      by (simp add: config_vars_load map_of_set_var set_var_def default_of_def lower_def
          split: var.splits)
  qed
  then show ?thesis by (simp add: trace_load)
qed

theorem load_settings_absent_defaults_witness:
  "''DEBUG_LOGGING'' \<notin> assigned_keys (readlines (''FOO=bar'' @ [newline] @ ''LISTEN_PORT=8080'')) \<and>
   map_of (config_vars (created_gui\<lparr>config_vars := [(''DEBUG_LOGGING'', BooleanVar True)]\<rparr>))
      ''DEBUG_LOGGING'' = Some (BooleanVar True) \<and>
   map_of (config_vars (load_settings (Readable (''FOO=bar'' @ [newline] @ ''LISTEN_PORT=8080''))
      (created_gui\<lparr>config_vars := [(''DEBUG_LOGGING'', BooleanVar True)]\<rparr>)))
      ''DEBUG_LOGGING'' = Some (BooleanVar False)"
proof -
  have absent: "''DEBUG_LOGGING'' \<notin> assigned_keys (readlines (''FOO=bar'' @ [newline] @ ''LISTEN_PORT=8080''))"
    by code_simp
  have present: "map_of (config_vars (created_gui\<lparr>config_vars := [(''DEBUG_LOGGING'', BooleanVar True)]\<rparr>))
      ''DEBUG_LOGGING'' = Some (BooleanVar True)"
    by simp
  show ?thesis
    using absent present
      load_settings_absent_defaults
        [of "created_gui\<lparr>config_vars := [(''DEBUG_LOGGING'', BooleanVar True)]\<rparr>"
            "Readable (''FOO=bar'' @ [newline] @ ''LISTEN_PORT=8080'')" "''DEBUG_LOGGING''"
            "BooleanVar True"]
    by (simp add: default_of_def)
qed

lemma lower_true: "lower ''true'' = ''true''"
  by code_simp

lemma lower_Nil: "lower [] = []"
  by (simp add: lower_def)

text \<open>
  C8. For a key whose variable is a \<open>BooleanVar\<close> with value \<open>b\<close>, saving writes the line
  \<open>KEY=true\<close> when \<open>b\<close> holds and \<open>KEY=false\<close> otherwise: that line is among the lines
  written, and it stands at the place of every line of the old file that assigns the key.
  Loading sets the variable to true if and only if the value read for the key (stripped, the
  last assignment winning) equals \<open>true\<close> when both are put in lower case.
\<close>

theorem boolean_keys_true_false:
  "map_of (config_vars g) k = Some (BooleanVar b) \<longrightarrow>
   k @ ''='' @ (if b then ''true'' else ''false'') @ [newline] \<in> set (save_lines (config_vars g) ls) \<and>
   (\<forall>i < length ls. line_key (ls ! i) = Some k \<longrightarrow>
       save_lines (config_vars g) ls ! i = k @ ''='' @ (if b then ''true'' else ''false'') @ [newline]) \<and>
   map_of (config_vars (load_settings (Readable t) g)) k =
     Some (BooleanVar (case read_values (readlines t) k of
                         None \<Rightarrow> False
                       | Some v \<Rightarrow> lower v = lower ''true''))"
proof
  assume k: "map_of (config_vars g) k = Some (BooleanVar b)"
  have kl: "key_line k (BooleanVar b) = k @ ''='' @ (if b then ''true'' else ''false'') @ [newline]"
    by (simp add: key_line_def var_text_def)
  have at_place: "save_lines (config_vars g) ls ! i = key_line k (BooleanVar b)"
    if "i < length ls" "line_key (ls ! i) = Some k" for i
    using that k by (simp add: save_lines_eq nth_append rewrite_line_def)
  have written: "key_line k (BooleanVar b) \<in> set (save_lines (config_vars g) ls)"
  proof (cases "k \<in> assigned_keys ls")
    case True
    then obtain i where "i < length ls" "line_key (ls ! i) = Some k"
      by (auto simp: assigned_keys_iff in_set_conv_nth)
    then have "save_lines (config_vars g) ls ! i = key_line k (BooleanVar b)"
      and "i < length (save_lines (config_vars g) ls)"
      by (simp_all add: at_place) (simp add: save_lines_eq)
    then show ?thesis by (metis nth_mem)
  next
    case False
    from k have "(k, BooleanVar b) \<in> set (config_vars g)" by (rule map_of_SomeD)
    with False show ?thesis by (force simp: save_lines_eq)
  qed
  have loaded: "map_of (config_vars (load_settings (Readable t) g)) k =
     Some (BooleanVar (case read_values (readlines t) k of
                         None \<Rightarrow> False
                       | Some v \<Rightarrow> lower v = lower ''true''))"
    using k
    by (simp add: config_vars_load map_of_set_var set_var_def lower_true lower_Nil
        split: option.splits)
  from at_place written loaded
  show "k @ ''='' @ (if b then ''true'' else ''false'') @ [newline] \<in> set (save_lines (config_vars g) ls) \<and>
   (\<forall>i < length ls. line_key (ls ! i) = Some k \<longrightarrow>
       save_lines (config_vars g) ls ! i = k @ ''='' @ (if b then ''true'' else ''false'') @ [newline]) \<and>
   map_of (config_vars (load_settings (Readable t) g)) k =
     Some (BooleanVar (case read_values (readlines t) k of
                         None \<Rightarrow> False
                       | Some v \<Rightarrow> lower v = lower ''true''))"
    unfolding kl by blast
qed

theorem boolean_keys_true_false_witness:
  "map_of (config_vars (created_gui\<lparr>config_vars := [(''DEBUG_LOGGING'', BooleanVar False)]\<rparr>))
      ''DEBUG_LOGGING'' = Some (BooleanVar False) \<and>
   line_key ([''# c'' @ [newline], ''DEBUG_LOGGING = TrUe '' @ [newline]] ! 1) = Some ''DEBUG_LOGGING'' \<and>
   save_lines [(''DEBUG_LOGGING'', BooleanVar False)]
      [''# c'' @ [newline], ''DEBUG_LOGGING = TrUe '' @ [newline]] ! 1
     = ''DEBUG_LOGGING=false'' @ [newline] \<and>
   map_of (config_vars (load_settings (Readable (''# c'' @ [newline] @ ''DEBUG_LOGGING = TrUe '' @ [newline]))
      (created_gui\<lparr>config_vars := [(''DEBUG_LOGGING'', BooleanVar False)]\<rparr>)))
      ''DEBUG_LOGGING'' = Some (BooleanVar True)"
proof -
  let ?g = "created_gui\<lparr>config_vars := [(''DEBUG_LOGGING'', BooleanVar False)]\<rparr>"
  let ?ls = "[''# c'' @ [newline], ''DEBUG_LOGGING = TrUe '' @ [newline]]"
  let ?t = "''# c'' @ [newline] @ ''DEBUG_LOGGING = TrUe '' @ [newline]"
  have present: "map_of (config_vars ?g) ''DEBUG_LOGGING'' = Some (BooleanVar False)"
    by simp
  have assigns: "line_key (?ls ! 1) = Some ''DEBUG_LOGGING''"
    by code_simp
  have stored: "read_values (readlines ?t) ''DEBUG_LOGGING'' = Some ''TrUe''"
    by code_simp
  have same: "lower ''TrUe'' = lower ''true''"
    by code_simp
  show ?thesis
    using present assigns stored same
      boolean_keys_true_false [of ?g "''DEBUG_LOGGING''" False ?ls ?t]
    by simp
qed

lemma concat_readlines: "concat (readlines t) = t"
  by (induction t rule: readlines.induct) (auto split: list.splits)



























text \<open>
  C9 at a file whose last line has no line feed: the file \<open>FOO=bar\<close> is loaded and saved.
  The first key added is written directly after \<open>bar\<close>, so the first line of the new file
  is \<open>FOO=barAPI_ENDPOINT=\<close> and no line of the new file assigns \<open>API_ENDPOINT\<close>, one of
  the ten keys.
\<close>

theorem save_settings_glues_unterminated_line:
  "fst (save_settings True (Readable ''FOO=bar'') (load_settings (Readable ''FOO=bar'') created_gui))
     = Readable (''FOO=bar'' @ text_of [''API_ENDPOINT='', ''AUTH_TOKEN='', ''SKIP_AUTH_TOKEN=false'',
         ''BACKUP_TOKEN='', ''LISTEN_PORT='', ''DEBUG_LOGGING=false'', ''THINKING_PROCESSING='',
         ''ANONYMOUS_MODE=false'', ''TOOL_SUPPORT=false'', ''SCAN_LIMIT=''])
   \<and> hd (readlines (''FOO=bar'' @ text_of [''API_ENDPOINT='', ''AUTH_TOKEN='', ''SKIP_AUTH_TOKEN=false'',
         ''BACKUP_TOKEN='', ''LISTEN_PORT='', ''DEBUG_LOGGING=false'', ''THINKING_PROCESSING='',
         ''ANONYMOUS_MODE=false'', ''TOOL_SUPPORT=false'', ''SCAN_LIMIT=''])) = ''FOO=barAPI_ENDPOINT='' @ [newline]
   \<and> ''API_ENDPOINT'' \<notin> assigned_keys (readlines (''FOO=bar'' @ text_of [''API_ENDPOINT='', ''AUTH_TOKEN='', ''SKIP_AUTH_TOKEN=false'',
         ''BACKUP_TOKEN='', ''LISTEN_PORT='', ''DEBUG_LOGGING=false'', ''THINKING_PROCESSING='',
         ''ANONYMOUS_MODE=false'', ''TOOL_SUPPORT=false'', ''SCAN_LIMIT='']))
   \<and> ''API_ENDPOINT'' \<in> fst ` set env_definitions"
  by code_simp

section \<open>Properties of the operations run alone\<close>

lemma trace_emit: "trace (emit e g) = trace g @ [e]"
  by (simp add: emit_def)

lemma trace_log_message: "trace (log_message m g) = trace g @ [LogMessage m]"
  by (simp add: log_message_def emit_def)

lemma fields_emit:
  "server_process (emit e g) = server_process g"
  "is_server_running (emit e g) = is_server_running g"
  "update_id (emit e g) = update_id g"
  "config_vars (emit e g) = config_vars g"
  by (simp_all add: emit_def)

lemma fields_log_message:
  "server_process (log_message m g) = server_process g"
  "is_server_running (log_message m g) = is_server_running g"
  "update_id (log_message m g) = update_id g"
  "config_vars (log_message m g) = config_vars g"
  by (simp_all add: log_message_def emit_def)

lemma messages_append: "messages (es @ fs) = messages es @ messages fs"
  by (induction es rule: messages.induct) simp_all

lemma added_append: "trace g' = trace g @ es \<Longrightarrow> added g g' = es"
  by (simp add: added_def)

text \<open>
  C5. When no process is tracked as running, a failure of the spawn leaves \<open>start_server\<close>
  as that exception, at once, to its caller; \<open>start_server\<close> does nothing that ends the
  application (no \<open>RootDestroy\<close> among the events it adds, on success or on failure); and
  after the call \<open>is_server_running\<close> holds if and only if the spawn succeeded.
\<close>

theorem start_server_spawn_result:
  "\<not> is_server_running g \<longrightarrow>
     fst (start_server popen g) = (case popen of Inl e \<Rightarrow> Inl e | Inr p \<Rightarrow> Inr ()) \<and>
     (is_server_running (snd (start_server popen g)) \<longleftrightarrow> (\<exists>p. popen = Inr p)) \<and>
     RootDestroy \<notin> set (added g (snd (start_server popen g)))"
proof
  assume idle: "\<not> is_server_running g"
  show "fst (start_server popen g) = (case popen of Inl e \<Rightarrow> Inl e | Inr p \<Rightarrow> Inr ()) \<and>
     (is_server_running (snd (start_server popen g)) \<longleftrightarrow> (\<exists>p. popen = Inr p)) \<and>
     RootDestroy \<notin> set (added g (snd (start_server popen g)))"
  proof (cases popen)
    case (Inl e)
    with idle show ?thesis
      by (simp add: start_server_def Let_def added_def trace_emit trace_log_message
          fields_emit fields_log_message)
  next
    case (Inr p)
    with idle show ?thesis
      by (simp add: start_server_def Let_def added_def trace_emit trace_log_message
          fields_emit fields_log_message)
  qed
qed

lemma stop_server_trace:
  assumes "is_server_running g" "server_process g = Some p"
  shows "trace (stop_server waited g) =
     trace g @ [LogMessage MsgStopping, Terminate p, WaitTimeout p 5]
       @ (case waited of
            Some rc \<Rightarrow> [LogMessage MsgStopSucceeded]
          | None \<Rightarrow> [LogMessage MsgStopTimeout, Kill p, LogMessage MsgKilled])"
  using assms
  by (simp add: stop_server_def Let_def trace_emit trace_log_message split: option.splits)

lemma read_loop_trace:
  "trace (foldl (\<lambda>g line. log_message (MsgServerLine (strip line)) g) g ls) =
     trace g @ map (\<lambda>line. LogMessage (MsgServerLine (strip line))) ls"
  by (induction ls arbitrary: g) (simp_all add: trace_log_message)

lemma read_loop_fields:
  "server_process (foldl (\<lambda>g line. log_message (MsgServerLine (strip line)) g) g ls) = server_process g"
  "is_server_running (foldl (\<lambda>g line. log_message (MsgServerLine (strip line)) g) g ls) = is_server_running g"
  by (induction ls arbitrary: g) (simp_all add: fields_log_message)

lemma read_server_output_trace:
  assumes "server_process g = Some p"
  shows "trace (read_server_output out rc g) =
     trace g @ map (\<lambda>line. LogMessage (MsgServerLine (strip line))) (readlines out)
       @ [StdoutClose p, Wait p, LogMessage (MsgStoppedCode rc)]"
  using assms
  by (simp add: read_server_output_def Let_def trace_emit trace_log_message read_loop_trace)

lemma messages_server_lines:
  "messages (map (\<lambda>line. LogMessage (MsgServerLine (strip line))) ls) = map (\<lambda>line. MsgServerLine (strip line)) ls"
  by (induction ls) simp_all


theorem start_server_spawn_result_witness:
  "\<not> is_server_running created_gui \<and>
   fst (start_server (Inl OSError) created_gui) = Inl OSError \<and>
   \<not> is_server_running (snd (start_server (Inl OSError) created_gui)) \<and>
   fst (start_server (Inr 7) created_gui) = Inr () \<and>
   is_server_running (snd (start_server (Inr 7) created_gui))"
proof -
  have idle: "\<not> is_server_running created_gui"
    by (simp add: created_gui_def)
  from idle start_server_spawn_result [of created_gui "Inl OSError"]
    start_server_spawn_result [of created_gui "Inr 7"]
  show ?thesis by simp
qed

text \<open>
  C2 as stated fails: after the forced kill \<open>stop_server\<close> does not wait again. With child 7
  tracked as running and the wait of five seconds timing out, the events are: the message,
  the termination request, the bounded wait, the time-out message, the kill and the last
  message; no unbounded \<open>Wait\<close> is among them.
\<close>

theorem stop_server_no_wait_after_kill:
  "added (running_gui 7) (stop_server None (running_gui 7)) =
     [LogMessage MsgStopping, Terminate 7, WaitTimeout 7 5, LogMessage MsgStopTimeout, Kill 7,
      LogMessage MsgKilled] \<and>
   Wait 7 \<notin> set (added (running_gui 7) (stop_server None (running_gui 7)))"
proof -
  have "is_server_running (running_gui 7)" "server_process (running_gui 7) = Some 7"
    by (simp_all add: running_gui_def)
  then have "added (running_gui 7) (stop_server None (running_gui 7)) =
     [LogMessage MsgStopping, Terminate 7, WaitTimeout 7 5, LogMessage MsgStopTimeout, Kill 7,
      LogMessage MsgKilled]"
    by (simp add: added_def stop_server_trace)
  then show ?thesis by simp
qed

text \<open>
  C2, as amended. A call of \<open>stop_server\<close> while child \<open>p\<close> is tracked as running sends the
  termination request and waits up to five seconds for the child to end; if the wait times
  out it kills the child and does not wait again. In both cases, when it returns
  \<open>is_server_running\<close> is false and \<open>server_process\<close> is \<open>None\<close>.
\<close>

theorem stop_server_escalates:
  "is_server_running g \<and> server_process g = Some p \<longrightarrow>
     added g (stop_server waited g) =
       (case waited of
          Some rc \<Rightarrow>
            [LogMessage MsgStopping, Terminate p, WaitTimeout p 5, LogMessage MsgStopSucceeded]
        | None \<Rightarrow>
            [LogMessage MsgStopping, Terminate p, WaitTimeout p 5, LogMessage MsgStopTimeout,
             Kill p, LogMessage MsgKilled]) \<and>
     \<not> is_server_running (stop_server waited g) \<and>
     server_process (stop_server waited g) = None"
proof
  assume tracked: "is_server_running g \<and> server_process g = Some p"
  then have "added g (stop_server waited g) =
       (case waited of
          Some rc \<Rightarrow>
            [LogMessage MsgStopping, Terminate p, WaitTimeout p 5, LogMessage MsgStopSucceeded]
        | None \<Rightarrow>
            [LogMessage MsgStopping, Terminate p, WaitTimeout p 5, LogMessage MsgStopTimeout,
             Kill p, LogMessage MsgKilled])"
    by (simp add: added_def stop_server_trace split: option.splits)
  moreover from tracked have "\<not> is_server_running (stop_server waited g)"
    and "server_process (stop_server waited g) = None"
    by (simp_all add: stop_server_def Let_def)
  ultimately show "added g (stop_server waited g) =
       (case waited of
          Some rc \<Rightarrow>
            [LogMessage MsgStopping, Terminate p, WaitTimeout p 5, LogMessage MsgStopSucceeded]
        | None \<Rightarrow>
            [LogMessage MsgStopping, Terminate p, WaitTimeout p 5, LogMessage MsgStopTimeout,
             Kill p, LogMessage MsgKilled]) \<and>
     \<not> is_server_running (stop_server waited g) \<and>
     server_process (stop_server waited g) = None"
    by blast
qed

theorem stop_server_escalates_witness:
  "is_server_running (running_gui 7) \<and> server_process (running_gui 7) = Some 7 \<and>
   added (running_gui 7) (stop_server (Some 0) (running_gui 7)) =
     [LogMessage MsgStopping, Terminate 7, WaitTimeout 7 5, LogMessage MsgStopSucceeded] \<and>
   \<not> is_server_running (stop_server (Some 0) (running_gui 7)) \<and>
   server_process (stop_server (Some 0) (running_gui 7)) = None"
proof -
  have tracked: "is_server_running (running_gui 7) \<and> server_process (running_gui 7) = Some 7"
    by (simp add: running_gui_def)
  from tracked stop_server_escalates [of "running_gui 7" 7 "Some 0"]
  show ?thesis by simp
qed



text \<open>
  The messages the reader adds when it runs alone: the lines of the child's output, in the
  order of the output, each stripped and marked as a server line, and then the terminal
  message.
\<close>

lemma read_server_output_messages:
  "server_process g = Some p \<longrightarrow>
     messages (added g (read_server_output out rc g)) =
       map (\<lambda>line. MsgServerLine (strip line)) (readlines out) @ [MsgStoppedCode rc]"
proof
  assume "server_process g = Some p"
  then have "added g (read_server_output out rc g) =
       map (\<lambda>line. LogMessage (MsgServerLine (strip line))) (readlines out)
       @ [StdoutClose p, Wait p, LogMessage (MsgStoppedCode rc)]"
    by (simp add: added_def read_server_output_trace)
  then show "messages (added g (read_server_output out rc g)) =
       map (\<lambda>line. MsgServerLine (strip line)) (readlines out) @ [MsgStoppedCode rc]"
    by (simp add: messages_append messages_server_lines)
qed

text \<open>\<open>quit_app\<close> does end the application, on every path.\<close>

lemma quit_app_ends: "RootDestroy \<in> set (added g (quit_app waited g))"
proof -
  show ?thesis
    by (cases waited; cases "update_id g"; cases "is_server_running g"; cases "server_process g")
      (simp_all add: quit_app_def added_def stop_server_def Let_def trace_emit trace_log_message
        fields_emit fields_log_message)
qed

section \<open>Properties of the interleaved threads and of the serial operations\<close>


































lemma reader_in_sum: "Reader pc \<in> set ts \<Longrightarrow> 1 \<le> sum_list (map is_reader ts)"
  by (induction ts) auto



lemma no_reader_views:
  assumes "sum_list (map is_reader ts) = 0"
  shows "Reader pc \<notin> set ts"
  using assms reader_in_sum [of pc ts] by auto













subsection \<open>A thread that runs alone does what the operation run alone does\<close>

text \<open>
  When no other thread takes a step in between, the statements of a thread have the effect
  of the operation of the previous sections: \<open>stop_server\<close> in nine steps when the child
  has ended and in eleven when the wait times out, \<open>start_server\<close> in six steps, or in
  three when \<open>Popen\<close> fails, and the reader thread in two steps for each line and eight
  more, once the child has ended and its output is in the pipe.
\<close>

lemma stop_thread_alone_graceful:
  assumes "is_server_running (app w)" "server_process (app w) = Some p" "exited w p \<noteq> None"
  shows "map_option app (run (CallStop # runs 9 (length (threads w)) b) w)
           = Some (stop_server (Some rc) (app w))"
  using assms
  by (auto simp: runs_def eval_nat_numeral set_thread_def on_app_def exited_def stop_server_def
      Let_def nth_append fields_emit fields_log_message emit_def log_message_def
      split: if_splits)

lemma stop_thread_alone_forced:
  assumes "is_server_running (app w)" "server_process (app w) = Some p" "exited w p = None"
  shows "map_option app (run (CallStop # runs 11 (length (threads w)) True) w)
           = Some (stop_server None (app w))"
  using assms
  by (auto simp: runs_def eval_nat_numeral set_thread_def on_app_def exited_def stop_server_def
      Let_def nth_append fields_emit fields_log_message emit_def log_message_def
      split: if_splits)

lemma start_thread_alone:
  assumes "\<not> is_server_running (app w)"
  shows "map_option app (run (CallStart # runs 6 (length (threads w)) True) w)
           = Some (snd (start_server (Inr (length (procs w))) (app w)))"
  using assms
  by (simp add: runs_def eval_nat_numeral set_thread_def on_app_def start_server_def
      Let_def nth_append fields_emit fields_log_message emit_def log_message_def)

lemma start_thread_alone_failure:
  assumes "\<not> is_server_running (app w)"
  shows "map_option (\<lambda>w'. (app w', threads w' ! length (threads w)))
             (run (CallStart # runs 3 (length (threads w)) False) w)
           = Some (snd (start_server (Inl OSError) (app w)), Starter (StartRaised OSError))"
  using assms
  by (simp add: runs_def eval_nat_numeral set_thread_def on_app_def start_server_def
      Let_def nth_append fields_emit fields_log_message emit_def log_message_def)


lemma run_append:
  "run (as @ bs) w = (case run as w of None \<Rightarrow> None | Some w' \<Rightarrow> run bs w')"
  by (induction as arbitrary: w) (auto split: option.splits)

lemma runs_Suc: "runs (Suc n) i b = Run i b # runs n i b"
  by (simp add: runs_def)

lemma runs_add: "runs (m + n) i b = runs m i b @ runs n i b"
  by (simp add: runs_def replicate_add)

lemma reader_loop_alone:
  assumes "r < length (threads w)" "threads w ! r = Reader (Read381_readline p)"
    "p < length (procs w)" "\<not> stdout_closed (procs w ! p)" "pipe (procs w ! p) = ls"
  shows "run (runs (2 * length ls) r b) w =
     Some (w\<lparr>app := foldl (\<lambda>g line. log_message (MsgServerLine (strip line)) g) (app w) ls,
             procs := (procs w)[p := (procs w ! p)\<lparr>pipe := []\<rparr>]\<rparr>)"
  using assms
proof (induction ls arbitrary: w)
  case Nil
  then have "(procs w)[p := (procs w ! p)\<lparr>pipe := []\<rparr>] = procs w"
    by (metis list_update_id proc.surjective proc.update_convs(2))
  then show ?case by (simp add: runs_def)
next
  case (Cons line ls)
  let ?w1 = "w\<lparr>app := log_message (MsgServerLine (strip line)) (app w),
               procs := (procs w)[p := (procs w ! p)\<lparr>pipe := ls\<rparr>]\<rparr>"
  have two: "run (runs 2 r b) w = Some ?w1"
    using Cons.prems
    by (simp add: runs_def eval_nat_numeral set_thread_def on_app_def list_update_same_conv)
  have "run (runs (2 * length ls) r b) ?w1 =
     Some (?w1\<lparr>app := foldl (\<lambda>g line. log_message (MsgServerLine (strip line)) g) (app ?w1) ls,
             procs := (procs ?w1)[p := (procs ?w1 ! p)\<lparr>pipe := []\<rparr>]\<rparr>)"
    using Cons.prems by (intro Cons.IH) simp_all
  moreover have "runs (2 * length (line # ls)) r b = runs 2 r b @ runs (2 * length ls) r b"
    using runs_add [of 2 "2 * length ls" r b] by simp
  ultimately show ?case
    using two Cons.prems(3) by (simp add: run_append)
qed


lemma reader_thread_alone:
  assumes r: "r < length (threads w)" "threads w ! r = Reader Read380"
    and h: "server_process (app w) = Some p" "p < length (procs w)"
    and c: "\<not> stdout_closed (procs w ! p)" "pipe (procs w ! p) = readlines out"
      "exit_code (procs w ! p) = Some rc"
  shows "map_option (\<lambda>w'. (app w', threads w' ! r))
           (run (runs (2 * length (readlines out) + 8) r b) w)
         = Some (read_server_output out rc (app w), Reader ReadDone)"
proof -
  let ?n = "length (readlines out)"
  let ?w2 = "set_thread r (Reader (Read381_readline p)) w"
  let ?w3 = "?w2\<lparr>app := foldl (\<lambda>g line. log_message (MsgServerLine (strip line)) g) (app ?w2)
                        (readlines out),
                procs := (procs ?w2)[p := (procs ?w2 ! p)\<lparr>pipe := []\<rparr>]\<rparr>"
  have split: "runs (2 * ?n + 8) r b = runs 2 r b @ runs (2 * ?n) r b @ runs 6 r b"
    using runs_add [of 2 "2 * ?n + 6" r b] runs_add [of "2 * ?n" 6 r b]
    by (simp add: add.commute)
  have first: "run (runs 2 r b) w = Some ?w2"
    using r h by (simp add: runs_def eval_nat_numeral set_thread_def)
  have loop: "run (runs (2 * ?n) r b) ?w2 = Some ?w3"
    using r h c by (intro reader_loop_alone) (simp_all add: set_thread_def)
  have handle3: "server_process (app ?w3) = Some p" "exited ?w3 p = Some rc"
    "threads ?w3 ! r = Reader (Read381_readline p)" "r < length (threads ?w3)"
    "pipe (procs ?w3 ! p) = []" "\<not> stdout_closed (procs ?w3 ! p)" "p < length (procs ?w3)"
    using r h c by (simp_all add: set_thread_def read_loop_fields exited_def)
  have last: "map_option (\<lambda>w'. (app w', threads w' ! r)) (run (runs 6 r b) ?w3)
      = Some (read_server_output out rc (app w), Reader ReadDone)"
    using handle3 h
    by (simp add: runs_def eval_nat_numeral set_thread_def on_app_def exited_def
        read_server_output_def Let_def fields_emit fields_log_message read_loop_fields)
  show ?thesis
    unfolding split by (simp only: run_append first loop option.case last)
qed

end
